theory Spec2Isabelle
  imports Main
begin

section \<open>Data model of the chat server (server entry file) and client (types.ts)\<close>

text \<open>
  The server is untyped JavaScript: a property read from an event payload is a string
  or \<^verbatim>\<open>undefined\<close>. Such a value is a \<open>string option\<close>, \<open>None\<close> being
  \<^verbatim>\<open>undefined\<close>; strict equality \<^verbatim>\<open>===\<close> on two such values is HOL equality.
  A value is truthy when it is a non-empty string.

  Timestamps (\<^verbatim>\<open>new Date().toISOString()\<close>) are natural numbers (milliseconds); the
  ISO strings the server writes order as the numbers do.

  Records keep the field names of the source; a name that two records share, or that
  HOL already uses, carries a prefix (\<open>m_id\<close>, \<open>u_id\<close>, \<open>g_id\<close> for \<^verbatim>\<open>id\<close>).
\<close>

type_synonym jsstr = "string option"

definition truthy :: "jsstr \<Rightarrow> bool" where
  "truthy v = (case v of None \<Rightarrow> False | Some s \<Rightarrow> s \<noteq> [])"

record Reaction =
  userId :: jsstr
  emoji :: jsstr
  reactedAt :: nat  \<comment> \<open>field \<^verbatim>\<open>createdAt\<close> of a reaction\<close>

record Reply =
  reply_id :: string
  reply_userId :: string
  reply_content :: string
  reply_createdAt :: nat

record Message =
  m_id :: string
  senderId :: jsstr
  receiverId :: jsstr
  groupId :: jsstr
  content :: jsstr
  m_type :: string
  fileUrl :: jsstr
  fileName :: jsstr
  createdAt :: nat
  updatedAt :: nat
  reactions :: "Reaction list"
  replies :: "Reply list"
  isEdited :: bool

record Group =
  g_id :: string
  g_name :: string
  members :: "string list"
  createdBy :: string

text \<open>Of a user record, the fields a handler reads or sets (the profile texts are left out).\<close>

record User =
  u_id :: string
  username :: string
  email :: string
  password :: string
  name :: string
  isOnline :: bool
  lastSeen :: nat

section \<open>Array helpers\<close>

text \<open>\<^verbatim>\<open>Array.prototype.find\<close> is \<^const>\<open>List.find\<close>;
  \<^verbatim>\<open>Array.prototype.findIndex\<close> returns the first index, \<open>None\<close> standing for -1.\<close>

fun findIndex :: "('a \<Rightarrow> bool) \<Rightarrow> 'a list \<Rightarrow> nat option" where
  "findIndex P [] = None"
| "findIndex P (x # xs) = (if P x then Some 0 else map_option Suc (findIndex P xs))"

section \<open>The reaction toggle (message_reaction handler, lines 528--545)\<close>

text \<open>
  \<^verbatim>\<open>existingReaction.emoji = data.emoji\<close> assigns through the reference that
  \<^verbatim>\<open>find\<close> returned: the first reaction of that user changes in place.
\<close>

fun set_emoji_of_first :: "jsstr \<Rightarrow> jsstr \<Rightarrow> Reaction list \<Rightarrow> Reaction list" where
  "set_emoji_of_first u e [] = []"
| "set_emoji_of_first u e (r # rs) =
     (if userId r = u then r\<lparr>emoji := e\<rparr> # rs else r # set_emoji_of_first u e rs)"

text \<open>
  The block between reading the message and writing the collection. \<open>t_react\<close> is the
  time read for the \<^verbatim>\<open>createdAt\<close> of a reaction that is appended, \<open>t_upd\<close> the time
  read for \<^verbatim>\<open>updatedAt\<close>.
\<close>

definition applyReaction :: "nat \<Rightarrow> nat \<Rightarrow> Message \<Rightarrow> jsstr \<Rightarrow> jsstr \<Rightarrow> Message" where
  "applyReaction t_react t_upd message u e =
     (let message' =
        (case find (\<lambda>r. userId r = u) (reactions message) of
           Some existingReaction \<Rightarrow>
             if emoji existingReaction = e
             then message\<lparr>reactions := filter (\<lambda>r. userId r \<noteq> u) (reactions message)\<rparr>
             else message\<lparr>reactions := set_emoji_of_first u e (reactions message)\<rparr>
         | None \<Rightarrow>
             message\<lparr>reactions := reactions message @
               [\<lparr>userId = u, emoji = e, reactedAt = t_react\<rparr>]\<rparr>)
      in message'\<lparr>updatedAt := t_upd\<rparr>)"

text \<open>The emoji a user currently has on a message: that of the user's first reaction.\<close>

definition reaction_of :: "jsstr \<Rightarrow> Reaction list \<Rightarrow> jsstr option" where
  "reaction_of u rs = map_option emoji (find (\<lambda>r. userId r = u) rs)"

text \<open>What a toggle with emoji \<open>e\<close> makes of a user's current reaction.\<close>

definition toggled :: "jsstr option \<Rightarrow> jsstr \<Rightarrow> jsstr option" where
  "toggled old e = (if old = Some e then None else Some e)"

text \<open>At most one reaction per user on a message.\<close>

definition one_reaction_per_user :: "Message \<Rightarrow> bool" where
  "one_reaction_per_user m = distinct (map userId (reactions m))"

section \<open>The store: readDatabase and writeDatabase (lines 96--111)\<close>

text \<open>
  Three JSON files, each holding one array. Whether the file system serves a read or a
  write is the environment's choice (\<open>read_ok\<close>, \<open>write_ok\<close>). \<^verbatim>\<open>readDatabase\<close>
  catches every error and returns the empty array; \<^verbatim>\<open>writeDatabase\<close> catches every
  error, logs it and returns nothing, so its caller sees no difference between a write
  that happened and one that failed. The environment also supplies the times the
  handler reads (\<open>clock env k\<close> is the value of the k-th \<^verbatim>\<open>new Date()\<close>
  expression of the handler, in source order) and the result of \<^verbatim>\<open>uuidv4()\<close>.
  The two functions of bcryptjs the routes call are the environment's as well.
\<close>

datatype Collection = UsersJson | MessagesJson | GroupsJson

record Store =
  users :: "User list"
  messages :: "Message list"
  groups :: "Group list"

record Env =
  read_ok :: "Collection \<Rightarrow> bool"
  write_ok :: "Collection \<Rightarrow> bool"
  clock :: "nat \<Rightarrow> nat"
  uuidv4 :: string
  bcrypt_hash :: "string \<Rightarrow> string"
  bcrypt_compare :: "string \<Rightarrow> string \<Rightarrow> bool"

definition readDatabase_users :: "Env \<Rightarrow> Store \<Rightarrow> User list" where
  "readDatabase_users env st = (if read_ok env UsersJson then users st else [])"

definition readDatabase_messages :: "Env \<Rightarrow> Store \<Rightarrow> Message list" where
  "readDatabase_messages env st = (if read_ok env MessagesJson then messages st else [])"

definition readDatabase_groups :: "Env \<Rightarrow> Store \<Rightarrow> Group list" where
  "readDatabase_groups env st = (if read_ok env GroupsJson then groups st else [])"

definition writeDatabase_users :: "Env \<Rightarrow> User list \<Rightarrow> Store \<Rightarrow> Store" where
  "writeDatabase_users env data st = (if write_ok env UsersJson then st\<lparr>users := data\<rparr> else st)"

definition writeDatabase_messages :: "Env \<Rightarrow> Message list \<Rightarrow> Store \<Rightarrow> Store" where
  "writeDatabase_messages env data st =
     (if write_ok env MessagesJson then st\<lparr>messages := data\<rparr> else st)"

section \<open>Events and emissions\<close>

text \<open>
  The server-to-client events, and the three ways the handlers emit one:
  \<^verbatim>\<open>io.to(r1).to(r2).emit\<close> (to the connections in the named rooms),
  \<^verbatim>\<open>socket.emit\<close> (to the originating connection) and
  \<^verbatim>\<open>socket.broadcast.emit\<close> (to every connection but the originating one).
  A room name is whatever value the handler passes, so it is a \<open>jsstr\<close>.
\<close>

type_synonym SocketId = string

datatype Event =
    Receive_message Message
  | Message_sent Message
  | Message_updated Message
  | User_online jsstr
  | User_offline jsstr
  | Message_error string
  | Reaction_error string

datatype Emit =
    ToRooms "jsstr list" Event
  | ToSocket SocketId Event
  | Broadcast SocketId Event

fun is_error_event :: "Event \<Rightarrow> bool" where
  "is_error_event (Message_error _) = True"
| "is_error_event (Reaction_error _) = True"
| "is_error_event _ = False"

fun emitted_event :: "Emit \<Rightarrow> Event" where
  "emitted_event (ToRooms _ ev) = ev"
| "emitted_event (ToSocket _ ev) = ev"
| "emitted_event (Broadcast _ ev) = ev"

text \<open>The rooms an emission list fans out to, one entry per emission and room.\<close>

fun rooms_of :: "Emit \<Rightarrow> jsstr list" where
  "rooms_of (ToRooms rs _) = rs"
| "rooms_of (ToSocket _ _) = []"
| "rooms_of (Broadcast _ _) = []"

definition fanout_rooms :: "Emit list \<Rightarrow> jsstr list" where
  "fanout_rooms out = concat (map rooms_of out)"

section \<open>send_message (lines 483--520)\<close>

record SendPayload =
  p_senderId :: jsstr
  p_receiverId :: jsstr
  p_groupId :: jsstr
  p_content :: jsstr
  p_type :: jsstr
  p_fileUrl :: jsstr
  p_fileName :: jsstr

text \<open>\<^verbatim>\<open>data.type || 'text'\<close>\<close>

definition type_or_text :: "jsstr \<Rightarrow> string" where
  "type_or_text v = (case v of None \<Rightarrow> ''text'' | Some s \<Rightarrow> if s = [] then ''text'' else s)"

definition new_message :: "Env \<Rightarrow> SendPayload \<Rightarrow> Message" where
  "new_message env d =
     \<lparr>m_id = uuidv4 env, senderId = p_senderId d, receiverId = p_receiverId d,
      groupId = p_groupId d, content = p_content d, m_type = type_or_text (p_type d),
      fileUrl = p_fileUrl d, fileName = p_fileName d,
      createdAt = clock env 0, updatedAt = clock env 1,
      reactions = [], replies = [], isEdited = False\<rparr>"

text \<open>
  The handler after its first \<^verbatim>\<open>await\<close>: \<open>msgs\<close> is what
  \<^verbatim>\<open>readDatabase('messages.json')\<close> returned, \<open>st\<close> the store when the handler
  resumes. A payload that is \<^verbatim>\<open>undefined\<close> (\<open>None\<close>) makes the first property
  read throw, which the handler's \<^verbatim>\<open>catch\<close> turns into \<^verbatim>\<open>message_error\<close>.
\<close>

definition send_message_resume ::
  "Env \<Rightarrow> SocketId \<Rightarrow> SendPayload option \<Rightarrow> Message list \<Rightarrow> Store \<Rightarrow> Store \<times> Emit list" where
  "send_message_resume env socket data msgs st =
     (case data of
        None \<Rightarrow> (st, [ToSocket socket (Message_error ''Failed to send message'')])
      | Some d \<Rightarrow>
          let message = new_message env d;
              st' = writeDatabase_messages env (msgs @ [message]) st
          in if truthy (p_groupId d)
             then (case find (\<lambda>g. Some (g_id g) = p_groupId d) (readDatabase_groups env st') of
                     Some grp \<Rightarrow>
                       (st', map (\<lambda>memberId. ToRooms [Some memberId] (Receive_message message))
                               (members grp))
                   | None \<Rightarrow> (st', []))
             else (st', [ToRooms [p_receiverId d] (Receive_message message),
                         ToSocket socket (Message_sent message)]))"

definition send_message ::
  "Env \<Rightarrow> SocketId \<Rightarrow> SendPayload option \<Rightarrow> Store \<Rightarrow> Store \<times> Emit list" where
  "send_message env socket data st =
     send_message_resume env socket data (readDatabase_messages env st) st"

section \<open>message_reaction (lines 522--563)\<close>

record ReactionPayload =
  rp_messageId :: jsstr
  rp_userId :: jsstr
  rp_emoji :: jsstr

text \<open>
  With an \<^verbatim>\<open>undefined\<close> payload the callback of \<^verbatim>\<open>findIndex\<close> throws on the
  first stored message (and \<^verbatim>\<open>reaction_error\<close> is emitted); over an empty array it
  never runs and the handler ends silently.
\<close>

definition message_reaction_resume ::
  "Env \<Rightarrow> SocketId \<Rightarrow> ReactionPayload option \<Rightarrow> Message list \<Rightarrow> Store \<Rightarrow> Store \<times> Emit list" where
  "message_reaction_resume env socket data msgs st =
     (case data of
        None \<Rightarrow> (if msgs = [] then (st, [])
                 else (st, [ToSocket socket (Reaction_error ''Failed to add reaction'')]))
      | Some d \<Rightarrow>
          (case findIndex (\<lambda>m. Some (m_id m) = rp_messageId d) msgs of
             None \<Rightarrow> (st, [])
           | Some messageIndex \<Rightarrow>
               let message = applyReaction (clock env 0) (clock env 1) (msgs ! messageIndex)
                               (rp_userId d) (rp_emoji d);
                   st' = writeDatabase_messages env (msgs[messageIndex := message]) st
               in if truthy (groupId message)
                  then (case find (\<lambda>g. Some (g_id g) = groupId message)
                               (readDatabase_groups env st') of
                          Some grp \<Rightarrow>
                            (st', map (\<lambda>memberId. ToRooms [Some memberId] (Message_updated message))
                                    (members grp))
                        | None \<Rightarrow> (st', []))
                  else (st', [ToRooms [senderId message, receiverId message]
                                (Message_updated message)])))"

definition message_reaction ::
  "Env \<Rightarrow> SocketId \<Rightarrow> ReactionPayload option \<Rightarrow> Store \<Rightarrow> Store \<times> Emit list" where
  "message_reaction env socket data st =
     message_reaction_resume env socket data (readDatabase_messages env st) st"

section \<open>Connections and presence: join and disconnect (lines 462--481, 573--597)\<close>

text \<open>
  What the process holds besides the store: the module-level map \<^verbatim>\<open>connectedUsers\<close>
  (user id to one socket id) and, per open connection, the property
  \<^verbatim>\<open>socket.userId\<close> and the rooms the socket is in. A socket starts in the room
  named by its own id and leaves every room when it closes.
\<close>

record Conn =
  sock_userId :: jsstr
  sock_rooms :: "jsstr set"

record Server =
  connectedUsers :: "jsstr \<rightharpoonup> SocketId"
  sockets :: "SocketId \<rightharpoonup> Conn"
  db :: Store

text \<open>
  Delivery, as socket.io does it: an emission to rooms reaches every connection that is
  in one of them (once), \<^verbatim>\<open>socket.emit\<close> reaches the connection itself, and a
  broadcast reaches every connection but the emitting one.
\<close>

fun reaches :: "SocketId \<Rightarrow> Conn \<Rightarrow> Emit \<Rightarrow> bool" where
  "reaches s c (ToRooms rs ev) = (\<exists>r \<in> set rs. r \<in> sock_rooms c)"
| "reaches s c (ToSocket s' ev) = (s = s')"
| "reaches s c (Broadcast s' ev) = (s \<noteq> s')"

text \<open>The events connection \<open>s\<close> receives from a list of emissions, in order.\<close>

definition received :: "SocketId \<Rightarrow> Conn \<Rightarrow> Emit list \<Rightarrow> Event list" where
  "received s c out = map emitted_event (filter (reaches s c) out)"

text \<open>The events emitted to room \<open>r\<close>, in order.\<close>

definition deliveries_to :: "jsstr \<Rightarrow> Emit list \<Rightarrow> Event list" where
  "deliveries_to r out = map emitted_event (filter (\<lambda>e. r \<in> set (rooms_of e)) out)"

definition connection :: "SocketId \<Rightarrow> Server \<Rightarrow> Server" where
  "connection socket srv =
     srv\<lparr>sockets := (sockets srv)(socket \<mapsto> \<lparr>sock_userId = None, sock_rooms = {Some socket}\<rparr>)\<rparr>"

definition update_socket :: "SocketId \<Rightarrow> (Conn \<Rightarrow> Conn) \<Rightarrow> Server \<Rightarrow> Server" where
  "update_socket socket f srv =
     (case sockets srv socket of
        None \<Rightarrow> srv
      | Some c \<Rightarrow> srv\<lparr>sockets := (sockets srv)(socket \<mapsto> f c)\<rparr>)"

text \<open>
  Both presence handlers suspend at \<^verbatim>\<open>await readDatabase('users.json')\<close>. The part
  after it takes what the read returned (\<open>us\<close>) and the server as it is when the
  handler resumes.
\<close>

definition join_resume ::
  "Env \<Rightarrow> SocketId \<Rightarrow> jsstr \<Rightarrow> User list \<Rightarrow> Server \<Rightarrow> Server \<times> Emit list" where
  "join_resume env socket uid us srv =
     (case findIndex (\<lambda>u. Some (u_id u) = uid) us of
        Some userIndex \<Rightarrow>
          (srv\<lparr>db := writeDatabase_users env
                    (us[userIndex := (us ! userIndex)\<lparr>isOnline := True, lastSeen := clock env 0\<rparr>])
                    (db srv)\<rparr>,
           [Broadcast socket (User_online uid)])
      | None \<Rightarrow> (srv, []))"

definition join :: "Env \<Rightarrow> SocketId \<Rightarrow> jsstr \<Rightarrow> Server \<Rightarrow> Server \<times> Emit list" where
  "join env socket uid srv =
     (let srv1 = update_socket socket
                   (\<lambda>c. c\<lparr>sock_userId := uid, sock_rooms := insert uid (sock_rooms c)\<rparr>) srv;
          srv2 = srv1\<lparr>connectedUsers := (connectedUsers srv1)(uid \<mapsto> socket)\<rparr>
      in join_resume env socket uid (readDatabase_users env (db srv2)) srv2)"

definition join_group :: "SocketId \<Rightarrow> jsstr \<Rightarrow> Server \<Rightarrow> Server" where
  "join_group socket gid srv = update_socket socket (\<lambda>c. c\<lparr>sock_rooms := insert gid (sock_rooms c)\<rparr>) srv"

definition leave_group :: "SocketId \<Rightarrow> jsstr \<Rightarrow> Server \<Rightarrow> Server" where
  "leave_group socket gid srv = update_socket socket (\<lambda>c. c\<lparr>sock_rooms := sock_rooms c - {gid}\<rparr>) srv"

definition disconnect_resume ::
  "Env \<Rightarrow> SocketId \<Rightarrow> jsstr \<Rightarrow> User list \<Rightarrow> Server \<Rightarrow> Server \<times> Emit list" where
  "disconnect_resume env socket uid us srv =
     (case findIndex (\<lambda>u. Some (u_id u) = uid) us of
        Some userIndex \<Rightarrow>
          (srv\<lparr>db := writeDatabase_users env
                    (us[userIndex := (us ! userIndex)\<lparr>isOnline := False, lastSeen := clock env 0\<rparr>])
                    (db srv)\<rparr>,
           [Broadcast socket (User_offline uid)])
      | None \<Rightarrow> (srv, []))"

text \<open>
  The part of the disconnect handler before its \<^verbatim>\<open>await\<close>: the socket is gone from
  its rooms, and the entry of its user in \<^verbatim>\<open>connectedUsers\<close> is deleted. The result
  is the server and, for a socket that had joined, the user id the handler goes on with.
\<close>

definition disconnect_begin :: "SocketId \<Rightarrow> Server \<Rightarrow> Server \<times> jsstr option" where
  "disconnect_begin socket srv =
     (case sockets srv socket of
        None \<Rightarrow> (srv, None)
      | Some c \<Rightarrow>
          let srv0 = srv\<lparr>sockets := (sockets srv)(socket := None)\<rparr>
          in if truthy (sock_userId c)
             then (srv0\<lparr>connectedUsers := (connectedUsers srv0)(sock_userId c := None)\<rparr>,
                   Some (sock_userId c))
             else (srv0, None))"

definition disconnect :: "Env \<Rightarrow> SocketId \<Rightarrow> Server \<Rightarrow> Server \<times> Emit list" where
  "disconnect env socket srv =
     (case disconnect_begin socket srv of
        (srv1, None) \<Rightarrow> (srv1, [])
      | (srv1, Some uid) \<Rightarrow>
          disconnect_resume env socket uid (readDatabase_users env (db srv1)) srv1)"



section \<open>The routes that write users.json (lines 174--244, 293--310)\<close>

text \<open>
  Besides join and disconnect, three REST routes write the users collection. Their
  HTTP responses are not events of the socket and are left out; what is kept is the
  store each leaves behind. A field of a request body is a string or missing.
\<close>

definition register :: "Env \<Rightarrow> jsstr \<Rightarrow> jsstr \<Rightarrow> jsstr \<Rightarrow> jsstr \<Rightarrow> Store \<Rightarrow> Store" where
  "register env uname mail pword fullname st =
     (case (uname, mail, pword, fullname) of
        (Some un, Some em, Some pw, Some nm) \<Rightarrow>
          if un = [] \<or> em = [] \<or> pw = [] \<or> nm = [] then st
          else (let us = readDatabase_users env st
                in case find (\<lambda>u. username u = un \<or> email u = em) us of
                     Some _ \<Rightarrow> st
                   | None \<Rightarrow>
                       writeDatabase_users env
                         (us @ [\<lparr>u_id = uuidv4 env, username = un, email = em,
                                 password = bcrypt_hash env pw, name = nm,
                                 isOnline = False, lastSeen = clock env 1\<rparr>])
                         st)
      | _ \<Rightarrow> st)"

text \<open>
  POST /api/login finds the first record whose username or email is the given name,
  checks the password against its hash, and marks that record online.
\<close>

definition login :: "Env \<Rightarrow> jsstr \<Rightarrow> jsstr \<Rightarrow> Store \<Rightarrow> Store" where
  "login env uname pword st =
     (case (uname, pword) of
        (Some un, Some pw) \<Rightarrow>
          if un = [] \<or> pw = [] then st
          else (let us = readDatabase_users env st
                in case findIndex (\<lambda>u. username u = un \<or> email u = un) us of
                     None \<Rightarrow> st
                   | Some i \<Rightarrow>
                       if bcrypt_compare env pw (password (us ! i))
                       then writeDatabase_users env
                              (us[i := (us ! i)\<lparr>isOnline := True, lastSeen := clock env 0\<rparr>]) st
                       else st)
      | _ \<Rightarrow> st)"

text \<open>
  PUT /api/profile spreads the request body over the record of the authenticated user:
  every field the body carries replaces the record's, the id and the online flag
  included.
\<close>

record ProfileBody =
  b_id :: "string option"
  b_username :: "string option"
  b_email :: "string option"
  b_password :: "string option"
  b_name :: "string option"
  b_isOnline :: "bool option"
  b_lastSeen :: "nat option"

definition or_old :: "'a option \<Rightarrow> 'a \<Rightarrow> 'a" where
  "or_old v old = (case v of None \<Rightarrow> old | Some x \<Rightarrow> x)"

definition spread :: "User \<Rightarrow> ProfileBody \<Rightarrow> User" where
  "spread u b =
     \<lparr>u_id = or_old (b_id b) (u_id u), username = or_old (b_username b) (username u),
      email = or_old (b_email b) (email u), password = or_old (b_password b) (password u),
      name = or_old (b_name b) (name u), isOnline = or_old (b_isOnline b) (isOnline u),
      lastSeen = or_old (b_lastSeen b) (lastSeen u)\<rparr>"

definition put_profile :: "Env \<Rightarrow> string \<Rightarrow> ProfileBody \<Rightarrow> Store \<Rightarrow> Store" where
  "put_profile env me body st =
     (let us = readDatabase_users env st
      in case findIndex (\<lambda>u. u_id u = me) us of
           None \<Rightarrow> st
         | Some userIndex \<Rightarrow>
             writeDatabase_users env (us[userIndex := spread (us ! userIndex) body]) st)"

section \<open>The event loop\<close>

text \<open>
  One request is one handler run: a socket event on one connection, or one of the
  REST routes above (for which the connection plays no part; \<open>Put_profile me\<close> is a
  request authenticated as user \<open>me\<close>). The typing relay is left out: it neither reads
  nor writes the store or the presence state.
\<close>

datatype Request =
    Connection
  | Join jsstr
  | Send_message "SendPayload option"
  | Message_reaction "ReactionPayload option"
  | Join_group jsstr
  | Leave_group jsstr
  | Disconnect
  | Register jsstr jsstr jsstr jsstr
  | Login jsstr jsstr
  | Put_profile string ProfileBody

fun handle :: "Env \<Rightarrow> SocketId \<Rightarrow> Request \<Rightarrow> Server \<Rightarrow> Server \<times> Emit list" where
  "handle env socket Connection srv = (connection socket srv, [])"
| "handle env socket (Join uid) srv = join env socket uid srv"
| "handle env socket (Send_message data) srv =
     (let (st', out) = send_message env socket data (db srv) in (srv\<lparr>db := st'\<rparr>, out))"
| "handle env socket (Message_reaction data) srv =
     (let (st', out) = message_reaction env socket data (db srv) in (srv\<lparr>db := st'\<rparr>, out))"
| "handle env socket (Join_group gid) srv = (join_group socket gid srv, [])"
| "handle env socket (Leave_group gid) srv = (leave_group socket gid srv, [])"
| "handle env socket Disconnect srv = disconnect env socket srv"
| "handle env socket (Register un em pw nm) srv = (srv\<lparr>db := register env un em pw nm (db srv)\<rparr>, [])"
| "handle env socket (Login un pw) srv = (srv\<lparr>db := login env un pw (db srv)\<rparr>, [])"
| "handle env socket (Put_profile me body) srv = (srv\<lparr>db := put_profile env me body (db srv)\<rparr>, [])"

text \<open>Requests handled one after the other, each handler running to its end.\<close>

fun run_server :: "(Env \<times> SocketId \<times> Request) list \<Rightarrow> Server \<Rightarrow> Server \<times> Emit list" where
  "run_server [] srv = (srv, [])"
| "run_server ((env, socket, req) # rest) srv =
     (let (srv1, out1) = handle env socket req srv;
          (srv2, out2) = run_server rest srv1
      in (srv2, out1 @ out2))"

subsection \<open>Requests that can mark a user online\<close>





subsection \<open>Handlers in flight together\<close>

text \<open>
  The handlers are \<^verbatim>\<open>async\<close>: each suspends at
  \<^verbatim>\<open>await readDatabase('messages.json')\<close>, and another handler may run before it
  resumes. Nothing in the source orders two handlers on the same collection. A task is
  a send or a reaction in flight: waiting for its read, holding what it read, or done.
  Step \<open>i\<close> of a schedule lets task \<open>i\<close> take its next step; the part of a handler
  from its resumption to its emissions is one step, and writes take effect in the order
  they are issued.
\<close>

datatype Op = SendOp "SendPayload option" | ReactOp "ReactionPayload option"

datatype Phase = Waiting | Loaded "Message list" | Done

record Task =
  t_env :: Env
  t_socket :: SocketId
  t_op :: Op
  t_phase :: Phase

fun resume :: "Env \<Rightarrow> SocketId \<Rightarrow> Op \<Rightarrow> Message list \<Rightarrow> Store \<Rightarrow> Store \<times> Emit list" where
  "resume env socket (SendOp data) msgs st = send_message_resume env socket data msgs st"
| "resume env socket (ReactOp data) msgs st = message_reaction_resume env socket data msgs st"

definition step_task :: "nat \<Rightarrow> Task list \<times> Store \<times> Emit list \<Rightarrow> Task list \<times> Store \<times> Emit list" where
  "step_task i cfg =
     (case cfg of (ts, st, out) \<Rightarrow>
        if i < length ts
        then (let t = ts ! i in
              case t_phase t of
                Waiting \<Rightarrow> (ts[i := t\<lparr>t_phase := Loaded (readDatabase_messages (t_env t) st)\<rparr>], st, out)
              | Loaded msgs \<Rightarrow>
                  (let (st', out') = resume (t_env t) (t_socket t) (t_op t) msgs st
                   in (ts[i := t\<lparr>t_phase := Done\<rparr>], st', out @ out'))
              | Done \<Rightarrow> (ts, st, out))
        else (ts, st, out))"

definition run_schedule :: "nat list \<Rightarrow> Task list \<times> Store \<times> Emit list \<Rightarrow> Task list \<times> Store \<times> Emit list" where
  "run_schedule sched cfg = fold step_task sched cfg"

definition task :: "Env \<Rightarrow> SocketId \<Rightarrow> Op \<Rightarrow> Task" where
  "task env socket op = \<lparr>t_env = env, t_socket = socket, t_op = op, t_phase = Waiting\<rparr>"

text \<open>The stored message with a given id (the first one, as \<^verbatim>\<open>findIndex\<close> finds it).\<close>

definition stored_message :: "string \<Rightarrow> Store \<Rightarrow> Message option" where
  "stored_message mid st = find (\<lambda>m. m_id m = mid) (messages st)"

definition store_inv :: "Store \<Rightarrow> bool" where
  "store_inv st = list_all one_reaction_per_user (messages st)"

definition snapshots_inv :: "Task list \<Rightarrow> bool" where
  "snapshots_inv ts =
     list_all (\<lambda>t. case t_phase t of Loaded msgs \<Rightarrow> list_all one_reaction_per_user msgs
                                   | _ \<Rightarrow> True) ts"

text \<open>The emojis of the reactions user \<open>u\<close> has on a message, in list order.\<close>

definition emojis_of :: "jsstr \<Rightarrow> Reaction list \<Rightarrow> jsstr list" where
  "emojis_of u rs = map emoji (filter (\<lambda>r. userId r = u) rs)"

section \<open>The REST snapshot of a conversation (GET /api/messages/:userId, lines 313--327)\<close>


section \<open>The client cache (utils/storage.ts)\<close>

















section \<open>The push handlers of SocketContext.tsx (lines 63--99)\<close>








section \<open>The chat view (pages/ChatRoom.tsx)\<close>










section \<open>The listeners on the socket\<close>











section \<open>The client as a whole\<close>















subsection \<open>Runs of the client\<close>









section \<open>Example data\<close>

definition alice :: jsstr where "alice = Some ''alice''"
definition bob :: jsstr where "bob = Some ''bob''"
definition thumbs_up :: jsstr where "thumbs_up = Some ''thumbs_up''"
definition heart :: jsstr where "heart = Some ''heart''"

definition demo_message :: "Reaction list \<Rightarrow> Message" where
  "demo_message rs =
     \<lparr>m_id = ''m1'', senderId = alice, receiverId = bob, groupId = None,
      content = Some ''hi'', m_type = ''text'', fileUrl = None, fileName = None,
      createdAt = 10, updatedAt = 10, reactions = rs, replies = [], isEdited = False\<rparr>"

definition reaction :: "jsstr \<Rightarrow> jsstr \<Rightarrow> nat \<Rightarrow> Reaction" where
  "reaction u e t = \<lparr>userId = u, emoji = e, reactedAt = t\<rparr>"

definition demo_env :: Env where
  "demo_env = \<lparr>read_ok = (\<lambda>_. True), write_ok = (\<lambda>_. True), clock = (\<lambda>k. 100 + k),
               uuidv4 = ''m2'', bcrypt_hash = (\<lambda>pw. ''hash of '' @ pw),
               bcrypt_compare = (\<lambda>pw h. h = ''hash of '' @ pw)\<rparr>"

text \<open>The same environment with a file system that refuses to write messages.json.\<close>

definition demo_env_wfail :: Env where
  "demo_env_wfail = demo_env\<lparr>write_ok := (\<lambda>c. c \<noteq> MessagesJson)\<rparr>"

definition demo_user :: "string \<Rightarrow> bool \<Rightarrow> User" where
  "demo_user n f =
     \<lparr>u_id = n, username = n, email = n @ ''@example.org'', password = ''hash of secret'',
      name = n, isOnline = f, lastSeen = 0\<rparr>"

definition demo_group :: Group where
  "demo_group = \<lparr>g_id = ''g1'', g_name = ''team'', members = [''alice'', ''bob'', ''carol''],
                 createdBy = ''alice''\<rparr>"

definition demo_store :: "Reaction list \<Rightarrow> Store" where
  "demo_store rs =
     \<lparr>users = [demo_user ''alice'' False, demo_user ''bob'' False],
      messages = [demo_message rs], groups = [demo_group]\<rparr>"

definition demo_server :: "Reaction list \<Rightarrow> Server" where
  "demo_server rs = \<lparr>connectedUsers = Map.empty, sockets = Map.empty, db = demo_store rs\<rparr>"

definition react :: "string \<Rightarrow> jsstr \<Rightarrow> jsstr \<Rightarrow> ReactionPayload" where
  "react mid u e = \<lparr>rp_messageId = Some mid, rp_userId = u, rp_emoji = e\<rparr>"

definition direct :: "jsstr \<Rightarrow> jsstr \<Rightarrow> string \<Rightarrow> SendPayload" where
  "direct s r txt =
     \<lparr>p_senderId = s, p_receiverId = r, p_groupId = None, p_content = Some txt,
      p_type = Some ''text'', p_fileUrl = None, p_fileName = None\<rparr>"

definition to_group :: "jsstr \<Rightarrow> jsstr \<Rightarrow> string \<Rightarrow> SendPayload" where
  "to_group s g txt =
     \<lparr>p_senderId = s, p_receiverId = None, p_groupId = g, p_content = Some txt,
      p_type = Some ''text'', p_fileUrl = None, p_fileName = None\<rparr>"




definition demo_tasks :: "Task list" where
  "demo_tasks = [task demo_env ''s1'' (ReactOp (Some (react ''m1'' alice thumbs_up))),
                 task demo_env ''s2'' (ReactOp (Some (react ''m1'' bob heart)))]"








section \<open>Lemmas on the toggle\<close>

lemma map_userId_set_emoji: "map userId (set_emoji_of_first u e rs) = map userId rs"
  by (induction rs) auto

lemma find_set_emoji_same:
  "find (\<lambda>r. userId r = u) rs = Some x \<Longrightarrow>
   find (\<lambda>r. userId r = u) (set_emoji_of_first u e rs) = Some (x\<lparr>emoji := e\<rparr>)"
  by (induction rs) (auto split: if_splits)

lemma filter_set_emoji_other:
  "filter (\<lambda>r. userId r \<noteq> u) (set_emoji_of_first u e rs) = filter (\<lambda>r. userId r \<noteq> u) rs"
  by (induction rs) auto

lemma find_set_emoji_other:
  "v \<noteq> u \<Longrightarrow> find (\<lambda>r. userId r = v) (set_emoji_of_first u e rs) = find (\<lambda>r. userId r = v) rs"
  by (induction rs) auto

lemma find_filter_other:
  "v \<noteq> u \<Longrightarrow> find (\<lambda>r. userId r = v) (filter (\<lambda>r. userId r \<noteq> u) rs) = find (\<lambda>r. userId r = v) rs"
  by (induction rs) auto

lemma find_filter_self:
  "find (\<lambda>r. userId r = u) (filter (\<lambda>r. userId r \<noteq> u) rs) = None"
  by (induction rs) auto

lemma find_append_one:
  "find P (xs @ [y]) = (case find P xs of Some x \<Rightarrow> Some x | None \<Rightarrow> if P y then Some y else None)"
  by (induction xs) auto

lemma find_None_notin: "find (\<lambda>r. userId r = u) rs = None \<Longrightarrow> u \<notin> set (map userId rs)"
  by (induction rs) (auto split: if_splits)

lemma reactions_applyReaction:
  "reactions (applyReaction t1 t2 m u e) =
     (case find (\<lambda>r. userId r = u) (reactions m) of
        Some x \<Rightarrow> if emoji x = e then filter (\<lambda>r. userId r \<noteq> u) (reactions m)
                  else set_emoji_of_first u e (reactions m)
      | None \<Rightarrow> reactions m @ [\<lparr>userId = u, emoji = e, reactedAt = t1\<rparr>])"
  by (simp add: applyReaction_def Let_def split: option.split)

lemma reaction_of_applyReaction_self:
  "reaction_of u (reactions (applyReaction t1 t2 m u e)) =
     (if reaction_of u (reactions m) = Some e then None else Some e)"
  by (auto simp: reaction_of_def reactions_applyReaction find_filter_self find_set_emoji_same
      find_append_one split: option.splits)

lemma reaction_of_applyReaction_other:
  "v \<noteq> u \<Longrightarrow> reaction_of v (reactions (applyReaction t1 t2 m u e)) = reaction_of v (reactions m)"
  by (auto simp: reaction_of_def reactions_applyReaction find_filter_other find_set_emoji_other
      find_append_one split: option.splits)

lemma one_reaction_applyReaction:
  "one_reaction_per_user m \<Longrightarrow> one_reaction_per_user (applyReaction t1 t2 m u e)"
  by (auto simp: one_reaction_per_user_def reactions_applyReaction map_userId_set_emoji
      distinct_map_filter dest: find_None_notin split: option.splits)

lemma find_userId_None_iff:
  "find (\<lambda>r. userId r = u) rs = None \<longleftrightarrow> u \<notin> userId ` set rs"
  by (induction rs) auto

lemma emojis_of_distinct:
  "distinct (map userId rs) \<Longrightarrow>
   map emoji (filter (\<lambda>r. userId r = u) rs) =
     (case reaction_of u rs of None \<Rightarrow> [] | Some x \<Rightarrow> [x])"
proof (induction rs)
  case Nil
  then show ?case by (simp add: reaction_of_def)
next
  case (Cons r rs)
  show ?case
  proof (cases "userId r = u")
    case True
    with Cons.prems have "u \<notin> userId ` set rs" by auto
    then have "filter (\<lambda>r. userId r = u) rs = []"
      by (auto simp: filter_empty_conv)
    with True show ?thesis by (simp add: reaction_of_def)
  next
    case False
    with Cons show ?thesis by (simp add: reaction_of_def)
  qed
qed

section \<open>Lemmas on the handlers\<close>

lemma findIndex_Some: "findIndex P xs = Some i \<Longrightarrow> i < length xs \<and> P (xs ! i)"
  by (induction xs arbitrary: i) (auto split: if_splits)

lemma find_update_first: "findIndex P xs = Some i \<Longrightarrow> P y \<Longrightarrow> find P (xs[i := y]) = Some y"
  by (induction xs arbitrary: i) (auto split: if_splits)

lemma list_all_update: "list_all Q xs \<Longrightarrow> Q y \<Longrightarrow> list_all Q (xs[i := y])"
  by (induction xs arbitrary: i) (auto split: nat.splits)

lemma new_message_inv: "one_reaction_per_user (new_message env d)"
  by (simp add: one_reaction_per_user_def new_message_def)

lemma send_resume_inv:
  "list_all one_reaction_per_user msgs \<Longrightarrow> store_inv st \<Longrightarrow>
   store_inv (fst (send_message_resume env s data msgs st))"
  by (auto simp: send_message_resume_def store_inv_def writeDatabase_messages_def Let_def
      new_message_inv split: option.splits)

lemma react_resume_inv:
  assumes "list_all one_reaction_per_user msgs" "store_inv st"
  shows "store_inv (fst (message_reaction_resume env s data msgs st))"
proof -
  have upd: "list_all one_reaction_per_user (msgs[i := applyReaction t1 t2 (msgs ! i) u e])"
    if "i < length msgs" for i t1 t2 u e
    using assms(1) that
    by (intro list_all_update one_reaction_applyReaction) (simp_all add: list_all_length)
  show ?thesis
    using assms(2) upd
    by (auto simp: message_reaction_resume_def store_inv_def writeDatabase_messages_def Let_def
        dest!: findIndex_Some split: option.splits)
qed

lemma read_messages_inv: "store_inv st \<Longrightarrow> list_all one_reaction_per_user (readDatabase_messages env st)"
  by (simp add: readDatabase_messages_def store_inv_def)

lemma update_socket_db: "db (update_socket s f srv) = db srv"
  by (simp add: update_socket_def split: option.splits)

lemma writeDatabase_users_messages: "messages (writeDatabase_users env us st) = messages st"
  by (simp add: writeDatabase_users_def)

lemma register_messages: "messages (register env un em pw nm st) = messages st"
  by (simp add: register_def Let_def writeDatabase_users_messages split: option.splits)

lemma login_messages: "messages (login env un pw st) = messages st"
  by (simp add: login_def Let_def writeDatabase_users_messages split: option.splits)

lemma put_profile_messages: "messages (put_profile env me body st) = messages st"
  by (simp add: put_profile_def Let_def writeDatabase_users_messages split: option.splits)

lemma handle_inv: "store_inv (db srv) \<Longrightarrow> store_inv (db (fst (handle env s req srv)))"
proof (cases req)
  case (Send_message data)
  assume "store_inv (db srv)"
  then show ?thesis using Send_message send_resume_inv[of "readDatabase_messages env (db srv)" "db srv" env s data]
    by (auto simp: send_message_def read_messages_inv split: prod.splits)
next
  case (Message_reaction data)
  assume "store_inv (db srv)"
  then show ?thesis using Message_reaction react_resume_inv[of "readDatabase_messages env (db srv)" "db srv" env s data]
    by (auto simp: message_reaction_def read_messages_inv split: prod.splits)
next
  case (Join uid)
  assume "store_inv (db srv)"
  then show ?thesis using Join
    by (auto simp: join_def join_resume_def Let_def store_inv_def update_socket_db writeDatabase_users_messages split: option.splits)
next
  case Disconnect
  assume "store_inv (db srv)"
  then show ?thesis using Disconnect
    by (auto simp: disconnect_def disconnect_begin_def disconnect_resume_def Let_def store_inv_def writeDatabase_users_messages split: option.splits)
qed (simp_all add: connection_def join_group_def leave_group_def update_socket_db store_inv_def
    register_messages login_messages put_profile_messages)

lemma run_server_inv: "store_inv (db srv) \<Longrightarrow> store_inv (db (fst (run_server trace srv)))"
proof (induction trace arbitrary: srv)
  case Nil
  then show ?case by simp
next
  case (Cons a trace)
  obtain env s req where a: "a = (env, s, req)" by (cases a)
  from Cons.prems have "store_inv (db (fst (handle env s req srv)))" by (rule handle_inv)
  from Cons.IH[OF this] show ?case by (auto simp: a split: prod.splits)
qed

lemma resume_inv:
  "list_all one_reaction_per_user msgs \<Longrightarrow> store_inv st \<Longrightarrow>
   store_inv (fst (resume env s op msgs st))"
  by (cases op) (simp_all add: send_resume_inv react_resume_inv)

lemma step_task_inv:
  assumes "store_inv st" "snapshots_inv ts" "step_task i (ts, st, out) = (ts', st', out')"
  shows "store_inv st' \<and> snapshots_inv ts'"
proof (cases "i < length ts")
  case False
  with assms show ?thesis by (simp add: step_task_def)
next
  case True
  then have ti: "case t_phase (ts ! i) of Loaded msgs \<Rightarrow> list_all one_reaction_per_user msgs | _ \<Rightarrow> True"
    using assms(2) by (simp add: snapshots_inv_def list_all_length)
  show ?thesis
  proof (cases "t_phase (ts ! i)")
    case Waiting
    with True assms(3) have "st' = st"
      and "ts' = ts[i := (ts ! i)\<lparr>t_phase := Loaded (readDatabase_messages (t_env (ts ! i)) st)\<rparr>]"
      by (auto simp: step_task_def Let_def)
    with assms(1,2) show ?thesis
      unfolding snapshots_inv_def
      by (auto intro!: list_all_update simp: read_messages_inv)
  next
    case (Loaded msgs)
    with ti have m: "list_all one_reaction_per_user msgs" by simp
    from Loaded True assms(3)
    have "st' = fst (resume (t_env (ts ! i)) (t_socket (ts ! i)) (t_op (ts ! i)) msgs st)"
      and "ts' = ts[i := (ts ! i)\<lparr>t_phase := Done\<rparr>]"
      by (auto simp: step_task_def Let_def split: prod.splits)
    with assms(1,2) m show ?thesis
      unfolding snapshots_inv_def
      by (auto intro!: list_all_update resume_inv)
  next
    case Done
    with True assms show ?thesis by (simp add: step_task_def Let_def)
  qed
qed

lemma run_schedule_inv:
  "store_inv st \<Longrightarrow> snapshots_inv ts \<Longrightarrow> run_schedule sched (ts, st, out) = (ts', st', out') \<Longrightarrow>
   store_inv st' \<and> snapshots_inv ts'"
proof (induction sched arbitrary: ts st out)
  case Nil
  then show ?case by (simp add: run_schedule_def)
next
  case (Cons i sched)
  obtain ts1 st1 out1 where s1: "step_task i (ts, st, out) = (ts1, st1, out1)"
    by (cases "step_task i (ts, st, out)")
  from step_task_inv[OF Cons.prems(1,2) s1] have "store_inv st1" "snapshots_inv ts1" by simp_all
  moreover from Cons.prems(3) s1 have "run_schedule sched (ts1, st1, out1) = (ts', st', out')"
    by (simp add: run_schedule_def)
  ultimately show ?case by (rule Cons.IH)
qed

lemma emojis_of_reaction_of:
  "one_reaction_per_user m \<Longrightarrow>
   emojis_of u (reactions m) = (case reaction_of u (reactions m) of None \<Rightarrow> [] | Some x \<Rightarrow> [x])"
  unfolding emojis_of_def one_reaction_per_user_def by (rule emojis_of_distinct)

lemma findIndex_Some_iff_find:
  "find P xs = Some x \<Longrightarrow> \<exists>i. findIndex P xs = Some i \<and> xs ! i = x"
  by (induction xs) (auto split: if_splits)

lemma find_update_other:
  "i < length xs \<Longrightarrow> \<not> P (xs ! i) \<Longrightarrow> \<not> P y \<Longrightarrow> find P (xs[i := y]) = find P xs"
  by (induction xs arbitrary: i) (auto split: nat.splits)






lemma writeDatabase_messages_groups: "groups (writeDatabase_messages env ms st) = groups st"
  by (simp add: writeDatabase_messages_def)

lemma readDatabase_groups_write:
  "readDatabase_groups env (writeDatabase_messages env' ms st) = readDatabase_groups env st"
  by (simp add: readDatabase_groups_def writeDatabase_messages_groups)

lemma filter_eq_distinct:
  "distinct xs \<Longrightarrow> filter (\<lambda>x. x = u) xs = (if u \<in> set xs then [u] else [])"
  by (induction xs) (auto simp: filter_empty_conv)

lemma deliveries_to_unicast:
  "deliveries_to (Some u) (map (\<lambda>memberId. ToRooms [Some memberId] ev) ms) =
     map (\<lambda>_. ev) (filter (\<lambda>x. x = u) ms)"
  by (induction ms) (auto simp: deliveries_to_def)

lemma write_failure_is_silent:
  assumes "\<not> write_ok env MessagesJson"
  shows "fst (send_message env socket (Some d) st) = st"
    and "snd (send_message env socket (Some d) st) =
         snd (send_message (env\<lparr>write_ok := \<lambda>_. True\<rparr>) socket (Some d) st)"
    and "\<forall>e \<in> set (snd (send_message env socket (Some d) st)). \<not> is_error_event (emitted_event e)"
  using assms
  by (auto simp: send_message_def send_message_resume_def Let_def writeDatabase_messages_def
      readDatabase_groups_def readDatabase_messages_def new_message_def split: option.splits)

lemma m_id_applyReaction: "m_id (applyReaction t1 t2 m u e) = m_id m"
  by (simp add: applyReaction_def Let_def split: option.splits)

lemma react_persists:
  assumes "read_ok env MessagesJson" and "write_ok env MessagesJson"
    and "rp_messageId d = Some mid" and "stored_message mid st = Some m"
  shows "stored_message mid (fst (message_reaction env s (Some d) st)) =
           Some (applyReaction (clock env 0) (clock env 1) m (rp_userId d) (rp_emoji d))"
proof -
  from assms(4) obtain i where i: "findIndex (\<lambda>m. m_id m = mid) (messages st) = Some i"
    and mi: "messages st ! i = m"
    using findIndex_Some_iff_find[of "\<lambda>m. m_id m = mid" "messages st" m]
    by (auto simp: stored_message_def)
  let ?m' = "applyReaction (clock env 0) (clock env 1) m (rp_userId d) (rp_emoji d)"
  from findIndex_Some[OF i] mi have "m_id ?m' = mid" by (simp add: m_id_applyReaction)
  from find_update_first[OF i, of ?m', OF this]
  have "find (\<lambda>m. m_id m = mid) ((messages st)[i := ?m']) = Some ?m'" .
  with assms(1-3) i mi show ?thesis
    by (auto simp: message_reaction_def message_reaction_resume_def Let_def
        readDatabase_messages_def writeDatabase_messages_def stored_message_def
        split: option.splits)
qed

lemma serial_schedule_01:
  "fst (snd (run_schedule [0, 0, 1, 1]
      ([task envA sA (ReactOp dA), task envB sB (ReactOp dB)], st, []))) =
   fst (message_reaction envB sB dB (fst (message_reaction envA sA dA st)))"
  by (simp add: run_schedule_def step_task_def task_def Let_def message_reaction_def
      case_prod_beta)

lemma serial_schedule_10:
  "fst (snd (run_schedule [1, 1, 0, 0]
      ([task envA sA (ReactOp dA), task envB sB (ReactOp dB)], st, []))) =
   fst (message_reaction envA sA dA (fst (message_reaction envB sB dB st)))"
  by (simp add: run_schedule_def step_task_def task_def Let_def message_reaction_def
      case_prod_beta)

lemma two_reactions_in_sequence:
  assumes "read_ok envA MessagesJson" and "write_ok envA MessagesJson"
    and "read_ok envB MessagesJson" and "write_ok envB MessagesJson"
    and "rp_messageId dA = Some mid" and "rp_messageId dB = Some mid"
    and "stored_message mid st = Some m"
    and "rp_userId dA \<noteq> rp_userId dB"
  shows "\<exists>m'. stored_message mid
            (fst (message_reaction envB sB (Some dB) (fst (message_reaction envA sA (Some dA) st))))
            = Some m'
          \<and> reaction_of (rp_userId dA) (reactions m') =
              toggled (reaction_of (rp_userId dA) (reactions m)) (rp_emoji dA)
          \<and> reaction_of (rp_userId dB) (reactions m') =
              toggled (reaction_of (rp_userId dB) (reactions m)) (rp_emoji dB)"
proof -
  let ?m1 = "applyReaction (clock envA 0) (clock envA 1) m (rp_userId dA) (rp_emoji dA)"
  let ?m2 = "applyReaction (clock envB 0) (clock envB 1) ?m1 (rp_userId dB) (rp_emoji dB)"
  have s1: "stored_message mid (fst (message_reaction envA sA (Some dA) st)) = Some ?m1"
    using assms(1,2,5,7) by (rule react_persists)
  have s2: "stored_message mid
      (fst (message_reaction envB sB (Some dB) (fst (message_reaction envA sA (Some dA) st)))) = Some ?m2"
    using assms(3,4,6) s1 by (rule react_persists)
  have a: "reaction_of (rp_userId dA) (reactions ?m2) =
      toggled (reaction_of (rp_userId dA) (reactions m)) (rp_emoji dA)"
    using assms(8)
    by (simp add: reaction_of_applyReaction_other reaction_of_applyReaction_self toggled_def)
  have b: "reaction_of (rp_userId dB) (reactions ?m2) =
      toggled (reaction_of (rp_userId dB) (reactions m)) (rp_emoji dB)"
    using assms(8)
    by (simp add: reaction_of_applyReaction_other[of "rp_userId dB" "rp_userId dA"]
        reaction_of_applyReaction_self toggled_def)
  from s2 a b show ?thesis by blast
qed

subsection \<open>The stored online flag\<close>























section \<open>Lemmas on the client cache\<close>












subsection \<open>The listeners a run leaves on the socket\<close>



























subsection \<open>The example runs\<close>






subsection \<open>The snapshot the server sends\<close>




subsection \<open>Pushes and the cached conversation\<close>




section \<open>The reaction reducer\<close>

text \<open>
  C3. Applying a reaction of user \<open>u\<close> with emoji \<open>e\<close> to a message is a three-case
  toggle. If \<open>u\<close> has no reaction on the message, the reaction \<open>(u, e)\<close> is appended at
  the end. If \<open>u\<close>'s existing reaction (the first one of \<open>u\<close>) has emoji \<open>e\<close>, it is
  removed: no reaction of \<open>u\<close> is left, and the reactions of the other users stay as they
  are. If it has another emoji, its emoji becomes \<open>e\<close> in place: the list keeps its users
  in the same positions, so no entry for \<open>u\<close> is appended, and the reactions of the other
  users stay as they are.
\<close>

theorem applyReaction_three_cases:
  "(u \<notin> userId ` set (reactions m) \<longrightarrow>
      reactions (applyReaction t1 t2 m u e) =
        reactions m @ [\<lparr>userId = u, emoji = e, reactedAt = t1\<rparr>])
   \<and> (\<forall>x. find (\<lambda>r. userId r = u) (reactions m) = Some x \<and> emoji x = e \<longrightarrow>
        u \<notin> userId ` set (reactions (applyReaction t1 t2 m u e))
        \<and> reactions (applyReaction t1 t2 m u e) = filter (\<lambda>r. userId r \<noteq> u) (reactions m))
   \<and> (\<forall>x. find (\<lambda>r. userId r = u) (reactions m) = Some x \<and> emoji x \<noteq> e \<longrightarrow>
        map userId (reactions (applyReaction t1 t2 m u e)) = map userId (reactions m)
        \<and> find (\<lambda>r. userId r = u) (reactions (applyReaction t1 t2 m u e)) = Some (x\<lparr>emoji := e\<rparr>)
        \<and> filter (\<lambda>r. userId r \<noteq> u) (reactions (applyReaction t1 t2 m u e)) =
            filter (\<lambda>r. userId r \<noteq> u) (reactions m))"
proof (intro conjI allI impI)
  assume "u \<notin> userId ` set (reactions m)"
  then have "find (\<lambda>r. userId r = u) (reactions m) = None"
    by (simp add: find_userId_None_iff)
  then show "reactions (applyReaction t1 t2 m u e) =
      reactions m @ [\<lparr>userId = u, emoji = e, reactedAt = t1\<rparr>]"
    by (simp add: reactions_applyReaction)
next
  fix x assume h: "find (\<lambda>r. userId r = u) (reactions m) = Some x \<and> emoji x = e"
  then show same: "reactions (applyReaction t1 t2 m u e) = filter (\<lambda>r. userId r \<noteq> u) (reactions m)"
    by (simp add: reactions_applyReaction)
  show "u \<notin> userId ` set (reactions (applyReaction t1 t2 m u e))"
    unfolding same by auto
next
  fix x assume h: "find (\<lambda>r. userId r = u) (reactions m) = Some x \<and> emoji x \<noteq> e"
  then have eq: "reactions (applyReaction t1 t2 m u e) = set_emoji_of_first u e (reactions m)"
    by (simp add: reactions_applyReaction)
  show "map userId (reactions (applyReaction t1 t2 m u e)) = map userId (reactions m)"
    unfolding eq by (rule map_userId_set_emoji)
  show "find (\<lambda>r. userId r = u) (reactions (applyReaction t1 t2 m u e)) = Some (x\<lparr>emoji := e\<rparr>)"
    unfolding eq using h by (simp add: find_set_emoji_same)
  show "filter (\<lambda>r. userId r \<noteq> u) (reactions (applyReaction t1 t2 m u e)) =
      filter (\<lambda>r. userId r \<noteq> u) (reactions m)"
    unfolding eq by (rule filter_set_emoji_other)
qed

theorem applyReaction_three_cases_witness:
  "reactions (applyReaction 20 21 (demo_message [reaction bob heart 5]) alice thumbs_up) =
     [reaction bob heart 5, reaction alice thumbs_up 20]
   \<and> reactions (applyReaction 20 21
        (demo_message [reaction bob heart 5, reaction alice thumbs_up 7]) alice thumbs_up) =
     [reaction bob heart 5]
   \<and> reactions (applyReaction 20 21
        (demo_message [reaction alice heart 7, reaction bob heart 5]) alice thumbs_up) =
     [reaction alice thumbs_up 7, reaction bob heart 5]"
proof -
  let ?m1 = "demo_message [reaction bob heart 5]"
  let ?m2 = "demo_message [reaction bob heart 5, reaction alice thumbs_up 7]"
  let ?m3 = "demo_message [reaction alice heart 7, reaction bob heart 5]"
  have c1: "reactions (applyReaction 20 21 ?m1 alice thumbs_up) =
      [reaction bob heart 5, reaction alice thumbs_up 20]"
    using applyReaction_three_cases [of alice ?m1 20 21 thumbs_up]
    by (simp add: alice_def bob_def thumbs_up_def heart_def demo_message_def reaction_def)
  have c2: "reactions (applyReaction 20 21 ?m2 alice thumbs_up) = [reaction bob heart 5]"
    using applyReaction_three_cases [of alice ?m2 20 21 thumbs_up]
    by (simp add: alice_def bob_def thumbs_up_def heart_def demo_message_def reaction_def)
  have "map userId (reactions (applyReaction 20 21 ?m3 alice thumbs_up)) = [alice, bob]
      \<and> find (\<lambda>r. userId r = alice) (reactions (applyReaction 20 21 ?m3 alice thumbs_up)) =
          Some (reaction alice thumbs_up 7)
      \<and> filter (\<lambda>r. userId r \<noteq> alice) (reactions (applyReaction 20 21 ?m3 alice thumbs_up)) =
          [reaction bob heart 5]"
    using applyReaction_three_cases [of alice ?m3 20 21 thumbs_up]
    by (simp add: alice_def bob_def thumbs_up_def heart_def demo_message_def reaction_def)
  then have c3: "reactions (applyReaction 20 21 ?m3 alice thumbs_up) =
      [reaction alice thumbs_up 7, reaction bob heart 5]"
    by (simp add: reactions_applyReaction alice_def bob_def thumbs_up_def heart_def demo_message_def reaction_def)
  from c1 c2 c3 show ?thesis by simp
qed

text \<open>
  C10 (as amended). On a message with at most one reaction per user, toggling twice with
  the same user \<open>u\<close> and emoji \<open>e\<close> restores the emojis \<open>u\<close> has on the message when
  \<open>u\<close> had no reaction or had the reaction \<open>e\<close> before; when \<open>u\<close> had a reaction with
  another emoji, the first toggle replaces it and the second removes it, so \<open>u\<close> ends
  with no reaction. (A restored reaction is a new entry: it carries the time of the
  second toggle and stands at the end of the list.)
\<close>

theorem double_toggle:
  assumes "one_reaction_per_user m"
  shows "emojis_of u (reactions (applyReaction t3 t4 (applyReaction t1 t2 m u e) u e)) =
     (if emojis_of u (reactions m) = [] \<or> emojis_of u (reactions m) = [e]
      then emojis_of u (reactions m) else [])"
proof -
  let ?m1 = "applyReaction t1 t2 m u e"
  let ?m2 = "applyReaction t3 t4 ?m1 u e"
  have i1: "one_reaction_per_user ?m1" using assms by (rule one_reaction_applyReaction)
  then have i2: "one_reaction_per_user ?m2" by (rule one_reaction_applyReaction)
  have r2: "reaction_of u (reactions ?m2) =
      (if reaction_of u (reactions m) = None \<or> reaction_of u (reactions m) = Some e
       then reaction_of u (reactions m) else None)"
    by (auto simp: reaction_of_applyReaction_self)
  show ?thesis
    unfolding emojis_of_reaction_of[OF i2] emojis_of_reaction_of[OF assms] r2
    by (auto split: option.splits)
qed

theorem double_toggle_witness:
  "one_reaction_per_user (demo_message [reaction bob heart 5, reaction alice thumbs_up 7])
   \<and> emojis_of alice (reactions (applyReaction 30 31 (applyReaction 20 21
        (demo_message [reaction bob heart 5, reaction alice thumbs_up 7]) alice thumbs_up)
        alice thumbs_up)) = [thumbs_up]"
proof -
  let ?m = "demo_message [reaction bob heart 5, reaction alice thumbs_up 7]"
  have h: "one_reaction_per_user ?m"
    by (simp add: one_reaction_per_user_def alice_def bob_def thumbs_up_def heart_def demo_message_def reaction_def)
  show ?thesis
    using h double_toggle [OF h, of alice 30 31 20 21 thumbs_up]
    by (simp add: emojis_of_def alice_def bob_def thumbs_up_def heart_def demo_message_def reaction_def)
qed

text \<open>
  The claim as stated fails when the user's reaction had another emoji: alice has a
  heart on the message, toggles thumbs-up twice and is left with no reaction.
\<close>

theorem double_toggle_counterexample:
  "emojis_of alice (reactions (applyReaction 30 31 (applyReaction 20 21
        (demo_message [reaction alice heart 7]) alice thumbs_up) alice thumbs_up))
     \<noteq> emojis_of alice (reactions (demo_message [reaction alice heart 7]))
   \<and> emojis_of alice (reactions (demo_message [reaction alice heart 7])) = [heart]
   \<and> emojis_of alice (reactions (applyReaction 30 31 (applyReaction 20 21
        (demo_message [reaction alice heart 7]) alice thumbs_up) alice thumbs_up)) = []"
  by (simp add: emojis_of_def applyReaction_def alice_def bob_def thumbs_up_def heart_def demo_message_def reaction_def)

section \<open>The invariant of the reaction lists\<close>

text \<open>
  C9. Every message carries at most one reaction per user, and every operation keeps it
  so: a message is created with an empty reaction list; the toggle keeps the property;
  every sequence of requests handled one after the other (connection, join,
  send_message, message_reaction, join_group, leave_group, disconnect, under any
  outcome of the reads and writes) keeps it for every stored message; and so does every
  interleaving of sends and reactions in flight together.
\<close>

theorem one_reaction_per_user_preserved:
  "one_reaction_per_user (new_message env d)
   \<and> (one_reaction_per_user m \<longrightarrow> one_reaction_per_user (applyReaction t1 t2 m u e))
   \<and> (store_inv (db srv) \<longrightarrow> store_inv (db (fst (run_server trace srv))))
   \<and> (store_inv st \<and> snapshots_inv ts \<longrightarrow>
        store_inv (fst (snd (run_schedule sched (ts, st, out))))
        \<and> snapshots_inv (fst (run_schedule sched (ts, st, out))))"
proof (intro conjI impI)
  show "one_reaction_per_user (new_message env d)" by (rule new_message_inv)
next
  assume "one_reaction_per_user m"
  then show "one_reaction_per_user (applyReaction t1 t2 m u e)"
    by (rule one_reaction_applyReaction)
next
  assume "store_inv (db srv)"
  then show "store_inv (db (fst (run_server trace srv)))" by (rule run_server_inv)
next
  assume h: "store_inv st \<and> snapshots_inv ts"
  obtain ts' st' out' where r: "run_schedule sched (ts, st, out) = (ts', st', out')"
    by (cases "run_schedule sched (ts, st, out)")
  from h have "store_inv st' \<and> snapshots_inv ts'"
    using run_schedule_inv [OF _ _ r] by simp
  then show "store_inv (fst (snd (run_schedule sched (ts, st, out))))"
    and "snapshots_inv (fst (run_schedule sched (ts, st, out)))"
    by (simp_all add: r)
qed

theorem one_reaction_per_user_preserved_witness:
  "one_reaction_per_user (demo_message [reaction bob heart 5])
   \<and> one_reaction_per_user (applyReaction 20 21 (demo_message [reaction bob heart 5]) bob thumbs_up)
   \<and> store_inv (db (demo_server [reaction bob heart 5]))
   \<and> store_inv (db (fst (run_server
        [(demo_env, ''s1'', Message_reaction (Some (react ''m1'' alice thumbs_up))),
         (demo_env, ''s1'', Send_message (Some (direct alice bob ''again''))),
         (demo_env, ''s1'', Message_reaction (Some (react ''m1'' alice heart)))]
        (demo_server [reaction bob heart 5]))))
   \<and> snapshots_inv [task demo_env ''s1'' (ReactOp (Some (react ''m1'' alice thumbs_up))),
                     task demo_env ''s2'' (ReactOp (Some (react ''m1'' bob heart)))]
   \<and> store_inv (fst (snd (run_schedule [0, 1, 0, 1]
        ([task demo_env ''s1'' (ReactOp (Some (react ''m1'' alice thumbs_up))),
          task demo_env ''s2'' (ReactOp (Some (react ''m1'' bob heart)))],
         demo_store [reaction bob heart 5], []))))"
proof -
  let ?m = "demo_message [reaction bob heart 5]"
  let ?srv = "demo_server [reaction bob heart 5]"
  let ?ts = "[task demo_env ''s1'' (ReactOp (Some (react ''m1'' alice thumbs_up))),
              task demo_env ''s2'' (ReactOp (Some (react ''m1'' bob heart)))]"
  have m: "one_reaction_per_user ?m"
    by (simp add: one_reaction_per_user_def alice_def bob_def thumbs_up_def heart_def demo_message_def reaction_def)
  have st: "store_inv (demo_store [reaction bob heart 5])"
    by (simp add: store_inv_def demo_store_def m)
  then have srv: "store_inv (db ?srv)" by (simp add: demo_server_def)
  have ts: "snapshots_inv ?ts" by (simp add: snapshots_inv_def task_def)
  show ?thesis
    using m st srv ts
      one_reaction_per_user_preserved [of demo_env "direct alice bob ''again''" ?m
        20 21 bob thumbs_up ?srv
        "[(demo_env, ''s1'', Message_reaction (Some (react ''m1'' alice thumbs_up))),
          (demo_env, ''s1'', Send_message (Some (direct alice bob ''again''))),
          (demo_env, ''s1'', Message_reaction (Some (react ''m1'' alice heart)))]"
        "demo_store [reaction bob heart 5]" ?ts "[0, 1, 0, 1]" "[]"]
    by blast
qed

section \<open>Write failures\<close>

text \<open>
  C1 (the code at a failing write). With a file system that refuses to write
  messages.json, a direct send leaves the store as it was, and still emits
  \<^verbatim>\<open>receive_message\<close> to the receiver's room and \<^verbatim>\<open>message_sent\<close> to the
  originator; a reaction leaves the store as it was and still emits
  \<^verbatim>\<open>message_updated\<close> with the reaction that was never stored. Neither emits an
  error event.
\<close>

theorem write_failure_fans_out:
  "send_message demo_env_wfail ''s1'' (Some (direct alice bob ''hi'')) (demo_store []) =
     (demo_store [],
      [ToRooms [bob] (Receive_message (new_message demo_env_wfail (direct alice bob ''hi''))),
       ToSocket ''s1'' (Message_sent (new_message demo_env_wfail (direct alice bob ''hi'')))])
   \<and> message_reaction demo_env_wfail ''s2'' (Some (react ''m1'' bob heart)) (demo_store []) =
     (demo_store [],
      [ToRooms [alice, bob]
         (Message_updated ((demo_message [reaction bob heart 100])\<lparr>updatedAt := 101\<rparr>))])"
  by (simp add: send_message_def send_message_resume_def message_reaction_def
      message_reaction_resume_def Let_def writeDatabase_messages_def readDatabase_messages_def
      truthy_def applyReaction_def alice_def bob_def heart_def demo_message_def reaction_def demo_env_def demo_env_wfail_def demo_user_def demo_group_def demo_store_def react_def direct_def)

section \<open>Requests without a target\<close>




section \<open>Group fan-out\<close>

text \<open>
  C4. A send_message to a group whose record is read from the store at delivery time,
  with members \<open>M\<close> (no member listed twice), emits exactly one \<^verbatim>\<open>receive_message\<close>
  of the new message to the room of each member of \<open>M\<close>, the sender included when a
  member, and to no other room: one emission per member, in roster order, none skipped
  whoever is connected. A connection that is in the room of member \<open>u\<close> and of no other
  member receives the message exactly once.
\<close>

theorem group_fanout_once:
  assumes "truthy (p_groupId d)"
    and "find (\<lambda>g. Some (g_id g) = p_groupId d) (readDatabase_groups env st) = Some g"
    and "distinct (members g)"
  shows "deliveries_to (Some u) (snd (send_message env socket (Some d) st)) =
           (if u \<in> set (members g) then [Receive_message (new_message env d)] else [])
         \<and> fanout_rooms (snd (send_message env socket (Some d) st)) = map Some (members g)
         \<and> (u \<in> set (members g) \<and> Some u \<in> sock_rooms c
              \<and> (\<forall>v \<in> set (members g). v \<noteq> u \<longrightarrow> Some v \<notin> sock_rooms c) \<longrightarrow>
            received s c (snd (send_message env socket (Some d) st)) =
              [Receive_message (new_message env d)])"
proof -
  let ?ev = "Receive_message (new_message env d)"
  have out: "snd (send_message env socket (Some d) st) =
      map (\<lambda>memberId. ToRooms [Some memberId] ?ev) (members g)"
    using assms(1,2)
    by (simp add: send_message_def send_message_resume_def Let_def readDatabase_groups_write)
  have rec: "received s c (map (\<lambda>memberId. ToRooms [Some memberId] ?ev) ms) =
      map (\<lambda>_. ?ev) (filter (\<lambda>m. Some m \<in> sock_rooms c) ms)" for ms
    by (induction ms) (auto simp: received_def)
  have one: "filter (\<lambda>m. Some m \<in> sock_rooms c) (members g) = filter (\<lambda>x. x = u) (members g)"
    if "Some u \<in> sock_rooms c" "\<forall>v \<in> set (members g). v \<noteq> u \<longrightarrow> Some v \<notin> sock_rooms c"
    using that by (intro filter_cong) auto
  show ?thesis
    unfolding out deliveries_to_unicast rec
    by (auto simp: fanout_rooms_def comp_def one filter_eq_distinct[OF assms(3)])
qed

theorem group_fanout_once_witness:
  "truthy (Some ''g1'')
   \<and> find (\<lambda>g. Some (g_id g) = Some ''g1'') (readDatabase_groups demo_env (demo_store [])) = Some demo_group
   \<and> distinct (members demo_group)
   \<and> deliveries_to bob (snd (send_message demo_env ''s1''
        (Some (to_group alice (Some ''g1'') ''hello'')) (demo_store []))) =
       [Receive_message (new_message demo_env (to_group alice (Some ''g1'') ''hello''))]
   \<and> deliveries_to alice (snd (send_message demo_env ''s1''
        (Some (to_group alice (Some ''g1'') ''hello'')) (demo_store []))) =
       [Receive_message (new_message demo_env (to_group alice (Some ''g1'') ''hello''))]
   \<and> deliveries_to (Some ''dave'') (snd (send_message demo_env ''s1''
        (Some (to_group alice (Some ''g1'') ''hello'')) (demo_store []))) = []
   \<and> fanout_rooms (snd (send_message demo_env ''s1''
        (Some (to_group alice (Some ''g1'') ''hello'')) (demo_store []))) = [alice, bob, Some ''carol'']
   \<and> received ''s2'' \<lparr>sock_userId = bob, sock_rooms = {bob, Some ''s2''}\<rparr>
        (snd (send_message demo_env ''s1''
          (Some (to_group alice (Some ''g1'') ''hello'')) (demo_store []))) =
       [Receive_message (new_message demo_env (to_group alice (Some ''g1'') ''hello''))]"
proof -
  let ?d = "to_group alice (Some ''g1'') ''hello''"
  let ?c = "\<lparr>sock_userId = bob, sock_rooms = {bob, Some ''s2''}\<rparr>"
  have h1: "truthy (p_groupId ?d)" by (simp add: truthy_def to_group_def)
  have h2: "find (\<lambda>g. Some (g_id g) = p_groupId ?d) (readDatabase_groups demo_env (demo_store []))
      = Some demo_group"
    by (simp add: readDatabase_groups_def demo_env_def demo_user_def demo_group_def demo_store_def to_group_def)
  have h3: "distinct (members demo_group)" by (simp add: demo_group_def)
  show ?thesis
    using h1 h2 h3
      group_fanout_once [OF h1 h2 h3, where u = "''bob''" and socket = "''s1''" and c = ?c
        and s = "''s2''"]
      group_fanout_once [OF h1 h2 h3, where u = "''alice''" and socket = "''s1''" and c = ?c
        and s = "''s2''"]
      group_fanout_once [OF h1 h2 h3, where u = "''dave''" and socket = "''s1''" and c = ?c
        and s = "''s2''"]
    by (simp add: demo_group_def to_group_def alice_def bob_def)
qed

section \<open>Two reactions in flight\<close>

text \<open>
  C2 (as amended). The source has no serialization of writers: two reaction handlers
  on the same message may both read before either writes. When the two toggles, by
  different users on the same stored message, run one after the other (the second
  reads after the first has written), in either order and with reads and writes that
  succeed, both persist: the stored message shows each user's toggle applied to that
  user's reaction.
\<close>

theorem serial_toggles_both_persist:
  assumes "read_ok envA MessagesJson" and "write_ok envA MessagesJson"
    and "read_ok envB MessagesJson" and "write_ok envB MessagesJson"
    and "rp_messageId dA = Some mid" and "rp_messageId dB = Some mid"
    and "stored_message mid st = Some m"
    and "rp_userId dA \<noteq> rp_userId dB"
  shows "(\<exists>m'. stored_message mid (fst (snd (run_schedule [0, 0, 1, 1]
              ([task envA sA (ReactOp (Some dA)), task envB sB (ReactOp (Some dB))], st, []))))
            = Some m'
          \<and> reaction_of (rp_userId dA) (reactions m') =
              toggled (reaction_of (rp_userId dA) (reactions m)) (rp_emoji dA)
          \<and> reaction_of (rp_userId dB) (reactions m') =
              toggled (reaction_of (rp_userId dB) (reactions m)) (rp_emoji dB))
       \<and> (\<exists>m'. stored_message mid (fst (snd (run_schedule [1, 1, 0, 0]
              ([task envA sA (ReactOp (Some dA)), task envB sB (ReactOp (Some dB))], st, []))))
            = Some m'
          \<and> reaction_of (rp_userId dA) (reactions m') =
              toggled (reaction_of (rp_userId dA) (reactions m)) (rp_emoji dA)
          \<and> reaction_of (rp_userId dB) (reactions m') =
              toggled (reaction_of (rp_userId dB) (reactions m)) (rp_emoji dB))"
proof
  show "\<exists>m'. stored_message mid (fst (snd (run_schedule [0, 0, 1, 1]
              ([task envA sA (ReactOp (Some dA)), task envB sB (ReactOp (Some dB))], st, []))))
            = Some m'
          \<and> reaction_of (rp_userId dA) (reactions m') =
              toggled (reaction_of (rp_userId dA) (reactions m)) (rp_emoji dA)
          \<and> reaction_of (rp_userId dB) (reactions m') =
              toggled (reaction_of (rp_userId dB) (reactions m)) (rp_emoji dB)"
    unfolding serial_schedule_01 using assms by (rule two_reactions_in_sequence)
next
  from assms(8) have ne: "rp_userId dB \<noteq> rp_userId dA" by simp
  have "\<exists>m'. stored_message mid
            (fst (message_reaction envA sA (Some dA) (fst (message_reaction envB sB (Some dB) st))))
            = Some m'
          \<and> reaction_of (rp_userId dB) (reactions m') =
              toggled (reaction_of (rp_userId dB) (reactions m)) (rp_emoji dB)
          \<and> reaction_of (rp_userId dA) (reactions m') =
              toggled (reaction_of (rp_userId dA) (reactions m)) (rp_emoji dA)"
    using assms(3,4,1,2,6,5,7) ne by (rule two_reactions_in_sequence)
  then show "\<exists>m'. stored_message mid (fst (snd (run_schedule [1, 1, 0, 0]
              ([task envA sA (ReactOp (Some dA)), task envB sB (ReactOp (Some dB))], st, []))))
            = Some m'
          \<and> reaction_of (rp_userId dA) (reactions m') =
              toggled (reaction_of (rp_userId dA) (reactions m)) (rp_emoji dA)
          \<and> reaction_of (rp_userId dB) (reactions m') =
              toggled (reaction_of (rp_userId dB) (reactions m)) (rp_emoji dB)"
    unfolding serial_schedule_10 by blast
qed

theorem serial_toggles_both_persist_witness:
  "stored_message ''m1'' (demo_store []) = Some (demo_message [])
   \<and> alice \<noteq> bob
   \<and> (\<exists>m'. stored_message ''m1'' (fst (snd (run_schedule [0, 0, 1, 1]
              (demo_tasks, demo_store [], [])))) = Some m'
          \<and> reaction_of alice (reactions m') = Some thumbs_up
          \<and> reaction_of bob (reactions m') = Some heart)
   \<and> map reactions (messages (fst (snd (run_schedule [0, 0, 1, 1]
         (demo_tasks, demo_store [], []))))) =
       [[reaction alice thumbs_up 100, reaction bob heart 100]]"
proof -
  have h1: "read_ok demo_env MessagesJson" and h2: "write_ok demo_env MessagesJson"
    by (simp_all add: demo_env_def)
  have h3: "rp_messageId (react ''m1'' alice thumbs_up) = Some ''m1''"
    and h4: "rp_messageId (react ''m1'' bob heart) = Some ''m1''"
    by (simp_all add: react_def)
  have h5: "stored_message ''m1'' (demo_store []) = Some (demo_message [])"
    by (simp add: stored_message_def demo_store_def demo_message_def)
  have h6: "rp_userId (react ''m1'' alice thumbs_up) \<noteq> rp_userId (react ''m1'' bob heart)"
    by (simp add: react_def alice_def bob_def)
  have ne: "alice \<noteq> bob" by (simp add: alice_def bob_def)
  have run: "map reactions (messages (fst (snd (run_schedule [0, 0, 1, 1]
         (demo_tasks, demo_store [], []))))) =
       [[reaction alice thumbs_up 100, reaction bob heart 100]]"
    by (simp add: run_schedule_def step_task_def task_def Let_def message_reaction_resume_def
        readDatabase_messages_def writeDatabase_messages_def applyReaction_def truthy_def
        demo_tasks_def alice_def bob_def thumbs_up_def heart_def demo_message_def reaction_def demo_env_def demo_user_def demo_group_def demo_store_def react_def)
  show ?thesis
    using h5 ne run
      serial_toggles_both_persist [OF h1 h2 h1 h2 h3 h4 h5 h6, of "''s1''" "''s2''"]
    by (simp add: demo_tasks_def react_def toggled_def reaction_of_def demo_message_def)
qed

text \<open>
  The claim as stated fails on the source: when both handlers read before either
  writes, the second write replaces the first and alice's reaction is lost.
\<close>

theorem lost_update_counterexample:
  "map reactions (messages (fst (snd (run_schedule [0, 1, 0, 1]
      (demo_tasks, demo_store [], []))))) = [[reaction bob heart 100]]
   \<and> map t_phase (fst (run_schedule [0, 1, 0, 1] (demo_tasks, demo_store [], []))) = [Done, Done]"
  by (simp add: run_schedule_def step_task_def task_def Let_def message_reaction_resume_def
      readDatabase_messages_def writeDatabase_messages_def applyReaction_def truthy_def
      demo_tasks_def alice_def bob_def thumbs_up_def heart_def demo_message_def reaction_def demo_env_def demo_user_def demo_group_def demo_store_def react_def)

section \<open>Presence\<close>




section \<open>Unread counts\<close>





section \<open>Reconciling the view\<close>





end
